theory Spec2Isabelle
  imports Main "HOL-Library.Multiset" "HOL-Library.List_Lexorder"
begin

section \<open>Errors as values\<close>

text \<open>
  Every exception the Python code can raise is a value.  A computation that can raise has
  type \<open>error + 'a\<close>, with \<open>Inl\<close> for the exception.  \<open>Deadlock\<close> stands for a
  blocking receive that no message will ever match.
\<close>

datatype error = ValueError | IndexError | StopIteration | RuntimeError | Deadlock

definition bind_e :: "error + 'a \<Rightarrow> ('a \<Rightarrow> error + 'b) \<Rightarrow> error + 'b" where
  "bind_e m f = (case m of Inl e \<Rightarrow> Inl e | Inr x \<Rightarrow> f x)"

text \<open>A \<open>for\<close> loop whose body can raise: the first exception ends the loop.\<close>

fun fold_e :: "('a \<Rightarrow> 's \<Rightarrow> error + 's) \<Rightarrow> 'a list \<Rightarrow> 's \<Rightarrow> error + 's" where
  "fold_e f [] s = Inr s"
| "fold_e f (x # xs) s = bind_e (f x s) (fold_e f xs)"

fun map_e :: "('a \<Rightarrow> error + 'b) \<Rightarrow> 'a list \<Rightarrow> error + 'b list" where
  "map_e f [] = Inr []"
| "map_e f (x # xs) = bind_e (f x) (\<lambda>y. bind_e (map_e f xs) (\<lambda>ys. Inr (y # ys)))"

text \<open>\<open>next(i for i in xs if P i)\<close>: the first element that passes, or StopIteration.\<close>

definition next_e :: "('a \<Rightarrow> bool) \<Rightarrow> 'a list \<Rightarrow> error + 'a" where
  "next_e P xs = (case find P xs of None \<Rightarrow> Inl StopIteration | Some x \<Rightarrow> Inr x)"

text \<open>Python indexing of a sequence of length \<open>n\<close>: a negative index counts from the end.\<close>

definition py_index :: "int \<Rightarrow> nat \<Rightarrow> error + nat" where
  "py_index i n =
     (let j = (if i < 0 then i + int n else i)
      in if 0 \<le> j \<and> j < int n then Inr (nat j) else Inl IndexError)"

section \<open>Tensors\<close>

text \<open>
  A local torch tensor is its shape and its elements in row-major order.  A tensor whose
  first dimension is the one the code works along is handled as its list of rows
  (\<open>enumerate(t)\<close>), each row the flattened remaining dimensions; a position in a row is
  the flat offset of the index tuple that \<open>np.ndenumerate\<close> yields.
\<close>

datatype tensor = Tensor (shape: "nat list") (elems: "int list")

fun unravel :: "nat list \<Rightarrow> nat \<Rightarrow> nat list" where
  "unravel [] k = []"
| "unravel (d # ds) k = (k div prod_list ds) # unravel ds (k mod prod_list ds)"

fun ravel :: "nat list \<Rightarrow> nat list \<Rightarrow> nat" where
  "ravel (d # ds) (i # idx) = i * prod_list ds + ravel ds idx"
| "ravel _ _ = 0"

definition swap :: "nat \<Rightarrow> nat \<Rightarrow> 'a list \<Rightarrow> 'a list" where
  "swap i j xs = (xs[i := xs ! j])[j := xs ! i]"

definition transpose_t :: "tensor \<Rightarrow> nat \<Rightarrow> nat \<Rightarrow> tensor" where
  "transpose_t t i j =
     (let sh = swap i j (shape t)
      in Tensor sh (map (\<lambda>k. elems t ! ravel (shape t) (swap i j (unravel sh k)))
                        [0..<prod_list sh]))"

definition rows_of :: "tensor \<Rightarrow> int list list" where
  "rows_of t =
     (case shape t of
        [] \<Rightarrow> []
      | n # sh \<Rightarrow> map (\<lambda>i. take (prod_list sh) (drop (i * prod_list sh) (elems t))) [0..<n])"

definition of_rows :: "nat list \<Rightarrow> int list list \<Rightarrow> tensor" where
  "of_rows sh rs = Tensor (length rs # sh) (concat rs)"

definition column :: "int list list \<Rightarrow> nat \<Rightarrow> int list" where
  "column M j = map (\<lambda>r. r ! j) M"

text \<open>Reading and writing one cell \<open>M[i][j]\<close>; the row index may be negative.\<close>

definition get_cell :: "int list list \<Rightarrow> int \<Rightarrow> nat \<Rightarrow> error + int" where
  "get_cell M i j =
     bind_e (py_index i (length M))
       (\<lambda>r. if j < length (M ! r) then Inr (M ! r ! j) else Inl IndexError)"

definition set_cell :: "int list list \<Rightarrow> int \<Rightarrow> nat \<Rightarrow> int \<Rightarrow> error + int list list" where
  "set_cell M i j v =
     bind_e (py_index i (length M))
       (\<lambda>r. if j < length (M ! r) then Inr (M[r := (M ! r)[j := v]]) else Inl IndexError)"

definition add_cell :: "int list list \<Rightarrow> nat \<Rightarrow> nat \<Rightarrow> int \<Rightarrow> int list list" where
  "add_cell M r j d = M[r := (M ! r)[j := M ! r ! j + d]]"

subsection \<open>torch.sort along one dimension\<close>

definition sort_list :: "bool \<Rightarrow> int list \<Rightarrow> int list" where
  "sort_list descending xs = (if descending then rev (sort xs) else sort xs)"

text \<open>\<open>torch.sort(M, dim=0, descending)\<close> on rows of \<open>P\<close> cells: every column is sorted.\<close>

definition sort_dim0 :: "bool \<Rightarrow> nat \<Rightarrow> int list list \<Rightarrow> int list list" where
  "sort_dim0 descending P M =
     (let cols = map (\<lambda>j. sort_list descending (column M j)) [0..<P]
      in map (\<lambda>i. map (\<lambda>c. c ! i) cols) [0..<length M])"

text \<open>\<open>t.transpose(i, j)\<close> raises when a dimension is out of range.\<close>

definition transpose_e :: "tensor \<Rightarrow> nat \<Rightarrow> nat \<Rightarrow> error + tensor" where
  "transpose_e t i j =
     (if i < length (shape t) \<and> j < length (shape t) then Inr (transpose_t t i j)
      else Inl IndexError)"

definition torch_sort :: "tensor \<Rightarrow> nat \<Rightarrow> bool \<Rightarrow> error + tensor" where
  "torch_sort t dim descending =
     bind_e (transpose_e t dim 0) (\<lambda>tr.
       let sh = tl (shape tr)
       in Inr (transpose_t (of_rows sh (sort_dim0 descending (prod_list sh) (rows_of tr))) 0 dim))"

section \<open>Point-to-point tags\<close>

text \<open>
  \<open>tag = int(''.join([str(el) for el in idx]))\<close>: the decimal digits of the indices, one
  after the other, read back as one number.  \<open>int('')\<close> raises ValueError.
\<close>

definition digit_char :: "nat \<Rightarrow> char" where
  "digit_char d = char_of (48 + d)"

fun str_nat :: "nat \<Rightarrow> string" where
  "str_nat n = (if n < 10 then [digit_char n] else str_nat (n div 10) @ [digit_char (n mod 10)])"

declare str_nat.simps [simp del]

definition digit_val :: "char \<Rightarrow> nat option" where
  "digit_val c = (let k = (of_char c :: nat) in if 48 \<le> k \<and> k \<le> 57 then Some (k - 48) else None)"

definition int_of_str :: "string \<Rightarrow> error + int" where
  "int_of_str s =
     (if s = [] \<or> (\<exists>c \<in> set s. digit_val c = None) then Inl ValueError
      else Inr (foldl (\<lambda>a c. 10 * a + int (the (digit_val c))) 0 s))"

definition tag_of :: "nat list \<Rightarrow> error + int" where
  "tag_of idx = int_of_str (concat (map str_nat idx))"

section \<open>CLASSIFY\<close>

definition op_func :: "bool \<Rightarrow> int \<Rightarrow> int \<Rightarrow> bool" where
  "op_func descending x y = (if descending then x > y else x < y)"

text \<open>
  A generator expression whose test can raise: \<open>next(i for i in xs if test(i))\<close> gives
  the first \<open>i\<close> that passes, raises what the test raises, and raises StopIteration when
  the range is used up.
\<close>

fun first_e :: "(nat \<Rightarrow> error + bool) \<Rightarrow> nat list \<Rightarrow> error + nat" where
  "first_e test [] = Inl StopIteration"
| "first_e test (i # is) = bind_e (test i) (\<lambda>b. if b then Inr i else first_e test is)"

text \<open>\<open>global_pivots[i][idx]\<close> raises IndexError outside the pivot matrix.\<close>

definition pivot_at :: "int list list \<Rightarrow> nat \<Rightarrow> nat \<Rightarrow> error + int" where
  "pivot_at global_pivots i idx =
     (if i < length global_pivots \<and> idx < length (global_pivots ! i)
      then Inr (global_pivots ! i ! idx) else Inl IndexError)"

text \<open>
  \<open>cur = next(i for i in range(len(global_pivots) + 1)
               if (i == len(global_pivots) or op_func(val, global_pivots[i][idx])))\<close>
\<close>

definition classify :: "bool \<Rightarrow> int list list \<Rightarrow> nat \<Rightarrow> int \<Rightarrow> error + nat" where
  "classify descending global_pivots idx val =
     first_e (\<lambda>i. if i = length global_pivots then Inr True
                  else bind_e (pivot_at global_pivots i idx)
                         (\<lambda>p. Inr (op_func descending val p)))
       [0..<length global_pivots + 1]"

section \<open>Partitioned arrays and the process group\<close>

text \<open>
  A partitioned array: the global shape, the split axis (\<open>None\<close>: not split) and the
  local torch tensor of every process, listed by rank.  The number of processes of the
  communicator is the length of that list.
\<close>

record dndarray =
  gshape :: "nat list"
  split :: "nat option"
  larrays :: "tensor list"

text \<open>What a run sends through the communication layer, in program order.\<close>

datatype event = Gatherv | Bcast | Allreduce | Alltoall | Allgather | Allgatherv
  | Send nat nat

text \<open>
  Modelled from the spec: \<open>comm.counts_displs_shape\<close> (the Partition Chunking collaborator)
  is not among the sources; its per-rank counts are balanced to within one element, the
  remainder going to the lowest ranks first.
\<close>

definition counts_displs_shape :: "nat list \<Rightarrow> nat \<Rightarrow> nat \<Rightarrow> nat list" where
  "counts_displs_shape sh axis nproc =
     map (\<lambda>r. (sh ! axis) div nproc + (if r < (sh ! axis) mod nproc then 1 else 0)) [0..<nproc]"

text \<open>
  Modelled from the spec: \<open>stride_tricks.sanitize_axis\<close> is not among the sources; an
  axis outside the shape is an invalid axis and fails.
\<close>

definition sanitize_axis :: "nat list \<Rightarrow> nat \<Rightarrow> error + nat" where
  "sanitize_axis sh axis = (if axis < length sh then Inr axis else Inl ValueError)"

section \<open>Distributed sort: sampling and pivots\<close>

definition partitions :: "nat \<Rightarrow> nat \<Rightarrow> nat list" where
  "partitions len nproc = map (\<lambda>x. x * len div (nproc + 1)) [1..<nproc + 1]"

definition select_rows :: "int list list \<Rightarrow> nat list \<Rightarrow> error + int list list" where
  "select_rows M ks = map_e (\<lambda>k. if k < length M then Inr (M ! k) else Inl IndexError) ks"

definition local_pivots :: "nat \<Rightarrow> nat \<Rightarrow> int list list \<Rightarrow> error + int list list" where
  "local_pivots nproc cnt local_sorted =
     (if cnt \<noteq> 0 then select_rows local_sorted (partitions (length local_sorted) nproc)
      else Inr [])"

definition global_pivots_of :: "bool \<Rightarrow> nat \<Rightarrow> nat \<Rightarrow> int list list \<Rightarrow> error + int list list" where
  "global_pivots_of descending nproc P pivot_buffer =
     (let sorted_pivots = sort_dim0 descending P pivot_buffer;
          len = length sorted_pivots;
          global_partitions = map (\<lambda>x. x * len div nproc) [1..<nproc]
      in select_rows sorted_pivots global_partitions)"

definition index_matrix_of :: "bool \<Rightarrow> int list list \<Rightarrow> int list list \<Rightarrow> error + nat list list" where
  "index_matrix_of descending global_pivots local_sorted =
     map_e (\<lambda>x. map_e (\<lambda>(idx, val). classify descending global_pivots idx val) (enumerate 0 x))
       local_sorted"

text \<open>
  Both counting loops (\<open>partition_matrix[cur][idx] += 1\<close> and
  \<open>send_recv_matrix[pos] += 1\<close>) leave, for destination \<open>d\<close> and position \<open>j\<close>, the
  number of local rows whose cell \<open>j\<close> goes to \<open>d\<close>.
\<close>

definition count_matrix :: "nat \<Rightarrow> nat \<Rightarrow> nat list list \<Rightarrow> int list list" where
  "count_matrix nproc P index_matrix =
     map (\<lambda>d. map (\<lambda>j. int (length (filter (\<lambda>row. row ! j = d) index_matrix))) [0..<P])
       [0..<nproc]"

definition allreduce_sum :: "nat \<Rightarrow> nat \<Rightarrow> int list list list \<Rightarrow> int list list" where
  "allreduce_sum nproc P Ms =
     map (\<lambda>d. map (\<lambda>j. sum_list (map (\<lambda>M. M ! d ! j) Ms)) [0..<P]) [0..<nproc]"

text \<open>In-place all-to-all: rank \<open>r\<close> ends with row \<open>r\<close> of every rank's matrix, by sender.\<close>

definition alltoall :: "int list list list \<Rightarrow> int list list list" where
  "alltoall Ms = map (\<lambda>r. map (\<lambda>M. M ! r) Ms) [0..<length Ms]"

definition max_e :: "int list \<Rightarrow> error + int" where
  "max_e xs = (if xs = [] then Inl RuntimeError else Inr (Max (set xs)))"

section \<open>Distributed sort: exchange\<close>

text \<open>
  \<open>recv_indices[fill_level[idx]][idx] = i; fill_level[idx] += 1\<close>, for every sender
  \<open>i\<close>, position and announced element.
\<close>

definition fill_step :: "int \<Rightarrow> nat \<Rightarrow> int list list \<times> nat list \<Rightarrow> error + int list list \<times> nat list" where
  "fill_step v j st =
     (case st of (M, fill_level) \<Rightarrow>
        bind_e (set_cell M (int (fill_level ! j)) j v)
          (\<lambda>M'. Inr (M', fill_level[j := fill_level ! j + 1])))"

definition recv_indices_of :: "int \<Rightarrow> nat \<Rightarrow> nat \<Rightarrow> int list list \<Rightarrow> error + int list list" where
  "recv_indices_of junk rows P send_recv_matrix =
     bind_e
       (fold_e (\<lambda>(i, x). fold_e (\<lambda>(idx, val). fold_e (\<lambda>k. fill_step (int i) idx) [0..<nat val])
                                  (enumerate 0 x))
          (enumerate 0 send_recv_matrix)
          (replicate rows (replicate P junk), replicate P 0))
       (\<lambda>st. Inr (fst st))"

text \<open>A message in flight: source, destination, tag, value.\<close>

type_synonym msg = "nat \<times> nat \<times> int \<times> int"

definition sends_of :: "nat list \<Rightarrow> nat \<Rightarrow> int list list \<Rightarrow> nat list list \<Rightarrow> error + msg list" where
  "sends_of tsh rank local_sorted index_matrix =
     map_e (\<lambda>(i, j). bind_e (tag_of (tl (i # unravel tsh j)))
                       (\<lambda>tag. Inr (rank, index_matrix ! i ! j, tag, local_sorted ! i ! j)))
       (List.product [0..<length index_matrix] [0..<prod_list tsh])"

text \<open>
  A blocking receive takes the oldest message in flight with the asked source, destination
  and tag (messages between two processes do not overtake); with none, it never returns.
\<close>

fun take_msg :: "(msg \<Rightarrow> bool) \<Rightarrow> msg list \<Rightarrow> error + msg \<times> msg list" where
  "take_msg P [] = Inl Deadlock"
| "take_msg P (m # ms) =
     (if P m then Inr (m, ms)
      else bind_e (take_msg P ms) (\<lambda>(m', ms'). Inr (m', m # ms')))"

definition recv_one :: "nat \<Rightarrow> nat list \<Rightarrow> int list list \<Rightarrow> nat
    \<Rightarrow> int list list \<times> nat list \<times> msg list \<Rightarrow> error + int list list \<times> nat list \<times> msg list" where
  "recv_one rank tsh recv_indices j st =
     (case st of (local_result, fill_level, mailbox) \<Rightarrow>
        bind_e (get_cell recv_indices (int (fill_level ! j)) j) (\<lambda>source.
        bind_e (tag_of (unravel tsh j)) (\<lambda>tag.
        bind_e (take_msg (\<lambda>(s, d, t, v). int s = source \<and> d = rank \<and> t = tag) mailbox)
          (\<lambda>(m, mailbox').
        bind_e (set_cell local_result (int (fill_level ! j)) j (snd (snd (snd m)))) (\<lambda>lr.
        Inr (lr, fill_level[j := fill_level ! j + 1], mailbox'))))))"

definition recv_amount :: "nat \<Rightarrow> int list list \<Rightarrow> int list" where
  "recv_amount P send_recv_matrix = map (\<lambda>j. sum_list (column send_recv_matrix j)) [0..<P]"

definition receive_all :: "int \<Rightarrow> nat \<Rightarrow> nat list \<Rightarrow> nat \<Rightarrow> int list list \<Rightarrow> int list list
    \<Rightarrow> msg list \<Rightarrow> error + int list list \<times> msg list" where
  "receive_all junk rank tsh rows recv_indices send_recv_matrix mailbox =
     bind_e
       (fold_e (\<lambda>(idx, val). fold_e (\<lambda>i. recv_one rank tsh recv_indices idx) [0..<nat val])
          (enumerate 0 (recv_amount (prod_list tsh) send_recv_matrix))
          (replicate rows (replicate (prod_list tsh) junk), replicate (prod_list tsh) 0, mailbox))
       (\<lambda>st. Inr (fst st, snd (snd st)))"

section \<open>Distributed sort: rebalance\<close>

definition index_of :: "'a list \<Rightarrow> 'a \<Rightarrow> nat" where
  "index_of xs x = length (takeWhile (\<lambda>y. y \<noteq> x) xs)"

definition argmin_e :: "int list \<Rightarrow> error + nat" where
  "argmin_e xs = (if xs = [] then Inl RuntimeError else Inr (index_of xs (Min (set xs))))"

definition argmax_e :: "int list \<Rightarrow> error + nat" where
  "argmax_e xs = (if xs = [] then Inl RuntimeError else Inr (index_of xs (Max (set xs))))"

text \<open>
  The state of the rebalance loop.  \<open>partial\<close> and \<open>local_result\<close> are local to a
  process and listed by rank; \<open>problem_idx\<close> and \<open>partition_matrix\<close> hold the same
  values on every process (they come out of the all-reduce and are updated alike
  everywhere), so one copy stands for all.
\<close>

record rb_state =
  partial :: "int list list list"
  local_result :: "int list list list"
  problem_idx :: "int list list"
  partition_matrix :: "int list list"
  events :: "event list"

text \<open>The branch \<open>val < 0\<close>: rank \<open>i\<close> lacks an element at position \<open>idx\<close>.\<close>

definition take_from :: "bool \<Rightarrow> nat list \<Rightarrow> nat \<Rightarrow> nat \<Rightarrow> int \<Rightarrow> rb_state \<Rightarrow> error + rb_state" where
  "take_from descending lshape i idx val st =
     bind_e (next_e (\<lambda>r. partition_matrix st ! r ! idx > 0)
               [i + 1..<length (partition_matrix st)]) (\<lambda>sender.
       let receiver = i;
           ls = local_result st ! sender;
           stop = partition_matrix st ! sender ! idx;
           vals = column (take (nat stop) ls) idx
       in bind_e ((if descending then argmax_e else argmin_e) vals) (\<lambda>k.
          let send_buf = ls ! k ! idx;
              last_idx = int (lshape ! sender) + problem_idx st ! sender ! idx - 1
          in bind_e (get_cell ls last_idx idx) (\<lambda>v.
             bind_e (set_cell ls (int k) idx v) (\<lambda>ls'.
             bind_e (if k < length (partial st ! sender)
                     then set_cell (partial st ! sender) (int k) idx v
                     else Inr (partial st ! sender)) (\<lambda>ps.
             bind_e (set_cell (partial st ! receiver) val idx send_buf) (\<lambda>pr.
             Inr (st\<lparr>partial := ((partial st)[sender := ps])[receiver := pr],
                     local_result := (local_result st)[sender := ls'],
                     problem_idx :=
                       add_cell (add_cell (problem_idx st) receiver idx 1) sender idx (- 1),
                     partition_matrix :=
                       add_cell (add_cell (partition_matrix st) receiver idx 1) receiver idx (- 1),
                     events := events st @ [Send sender receiver]\<rparr>)))))))"

text \<open>
  \<open>tmp = torch.empty(new_shape); tmp[0: local_result.shape[axis]] = local_result\<close>, with
  \<open>val\<close> more rows than \<open>local_result\<close>.
\<close>

definition grow :: "int \<Rightarrow> nat \<Rightarrow> nat list \<Rightarrow> nat \<Rightarrow> int list list \<Rightarrow> error + int list list" where
  "grow junk axis tsh val lr =
     (let tmp = replicate (length lr + val) (replicate (prod_list tsh) junk);
          k = min ((length lr # tsh) ! axis) (length tmp)
      in if k = length lr then Inr (lr @ drop (length lr) tmp) else Inl RuntimeError)"

text \<open>The branch \<open>val > 0\<close>: rank \<open>i\<close> has an element too many at position \<open>idx\<close>.\<close>

definition give_to :: "int \<Rightarrow> bool \<Rightarrow> nat \<Rightarrow> nat list \<Rightarrow> nat \<Rightarrow> nat \<Rightarrow> int \<Rightarrow> rb_state
    \<Rightarrow> error + rb_state" where
  "give_to junk descending axis tsh i idx val st =
     bind_e (next_e (\<lambda>r. partition_matrix st ! r ! idx > 0)
               [i + 1..<length (partition_matrix st)]) (\<lambda>receiver.
       let sender = i;
           ls = local_result st ! sender;
           stop = partition_matrix st ! sender ! idx;
           vals = column (take (nat stop) ls) idx
       in bind_e ((if descending then argmin_e else argmax_e) vals) (\<lambda>k.
          let recv_buf = ls ! k ! idx;
              pr = partial st ! receiver;
              lr = local_result st ! receiver;
              recv_index = partition_matrix st ! receiver ! idx # map int (unravel tsh idx)
          in bind_e (if recv_index ! axis < int ((length pr # tsh) ! axis)
                     then set_cell pr (hd recv_index) idx recv_buf
                     else Inr pr) (\<lambda>pr'.
             bind_e (if recv_index ! axis < int ((length lr # tsh) ! axis)
                     then set_cell lr (hd recv_index) idx recv_buf
                     else bind_e (grow junk axis tsh (nat val) lr)
                            (\<lambda>tmp. set_cell tmp (hd recv_index) idx recv_buf)) (\<lambda>lr'.
             Inr (st\<lparr>partial := (partial st)[receiver := pr'],
                     local_result := (local_result st)[receiver := lr'],
                     problem_idx :=
                       add_cell (add_cell (problem_idx st) receiver idx 1) sender idx (- 1),
                     partition_matrix :=
                       add_cell (add_cell (partition_matrix st) receiver idx 1) receiver idx (- 1),
                     events := events st @ [Send sender receiver]\<rparr>)))))"

text \<open>\<open>while val != 0\<close>: one branch runs per round, and \<open>val\<close> moves one step to 0.\<close>

function rebalance_while :: "int \<Rightarrow> bool \<Rightarrow> nat \<Rightarrow> nat list \<Rightarrow> nat list \<Rightarrow> nat \<Rightarrow> nat \<Rightarrow> int
    \<Rightarrow> rb_state \<Rightarrow> error + rb_state" where
  "rebalance_while junk descending axis tsh lshape i idx val st =
     (if val = 0 then Inr st
      else if val < 0 then
        bind_e (take_from descending lshape i idx val st)
          (\<lambda>st'. rebalance_while junk descending axis tsh lshape i idx (val + 1) st')
      else
        bind_e (give_to junk descending axis tsh i idx val st)
          (\<lambda>st'. rebalance_while junk descending axis tsh lshape i idx (val - 1) st'))"
  by pat_completeness auto
termination
  by (relation "measure (\<lambda>(junk, descending, axis, tsh, lshape, i, idx, val, st). nat \<bar>val\<bar>)")
    auto

declare rebalance_while.simps [simp del]

definition rebalance :: "int \<Rightarrow> bool \<Rightarrow> nat \<Rightarrow> nat list \<Rightarrow> nat list \<Rightarrow> rb_state
    \<Rightarrow> error + rb_state" where
  "rebalance junk descending axis tsh lshape st =
     fold_e (\<lambda>i. fold_e (\<lambda>idx st'. rebalance_while junk descending axis tsh lshape i idx
                                     (problem_idx st' ! i ! idx) st')
                    [0..<prod_list tsh])
       [0..<length (partition_matrix st)] st"

section \<open>sort\<close>

text \<open>
  \<open>partial[0: copy_size] = local_result[0: copy_size]\<close>: the first rows of \<open>dst\<close> are
  overwritten, its shape stays.
\<close>

definition copy_prefix :: "nat \<Rightarrow> int list list \<Rightarrow> int list list \<Rightarrow> error + int list list" where
  "copy_prefix n src dst =
     (if n \<le> length src \<and> n \<le> length dst then Inr (take n src @ drop n dst)
      else Inl RuntimeError)"

text \<open>
  The branch of \<open>sort\<close> for \<open>axis == a.split\<close>, run for all processes in lockstep, up to
  the start of the rebalance loop.  \<open>junk\<close> is what \<open>torch.empty\<close> leaves in a cell that
  is never written.  All processes hold the same dimensions off the split axis (the
  collectives exchange buffers of those dimensions); the model stops with RuntimeError
  otherwise.  The result is the dimensions off the split axis and the state the rebalance
  loop starts from.
\<close>

definition sort_exchange :: "int \<Rightarrow> nat list \<Rightarrow> nat \<Rightarrow> bool \<Rightarrow> tensor list
    \<Rightarrow> error + nat list \<times> nat list \<times> rb_state" where
  "sort_exchange junk gsh axis descending locals =
     bind_e (map_e (\<lambda>t. transpose_e t axis 0) locals) (\<lambda>transposed.
     let nproc = length locals;
         ranks = [0..<nproc];
         tsh = (case transposed of [] \<Rightarrow> [] | t # _ \<Rightarrow> tl (shape t));
         P = prod_list tsh;
         local_sorted = map (\<lambda>t. sort_dim0 descending P (rows_of t)) transposed;
         lshape = map length local_sorted;
         counts = counts_displs_shape gsh axis nproc
     in if \<exists>t \<in> set transposed. tl (shape t) \<noteq> tsh then Inl RuntimeError else
        bind_e (map_e (\<lambda>r. local_pivots nproc (counts ! r) (local_sorted ! r)) ranks) (\<lambda>lps.
        bind_e (global_pivots_of descending nproc P (concat lps)) (\<lambda>global_pivots.
        bind_e (map_e (index_matrix_of descending global_pivots) local_sorted) (\<lambda>ims.
        let pm = allreduce_sum nproc P (map (count_matrix nproc P) ims);
            srm = alltoall (map (count_matrix nproc P) ims)
        in bind_e (map_e (\<lambda>r. max_e (pm ! r)) ranks) (\<lambda>tops.
           bind_e (map_e (\<lambda>r. recv_indices_of junk (nat (tops ! r)) P (srm ! r)) ranks) (\<lambda>ris.
           bind_e (map_e (\<lambda>r. sends_of tsh r (local_sorted ! r) (ims ! r)) ranks) (\<lambda>sends.
           bind_e (fold_e (\<lambda>r (lrs, mailbox).
                             bind_e (receive_all junk r tsh (nat (tops ! r)) (ris ! r) (srm ! r)
                                       mailbox)
                               (\<lambda>(lr, mailbox'). Inr (lrs @ [lr], mailbox')))
                     ranks ([], concat sends)) (\<lambda>(lrs, mailbox).
           bind_e (map_e (\<lambda>r. copy_prefix (min (lshape ! r) (nat (tops ! r))) (lrs ! r)
                                 (replicate (lshape ! r) (replicate P junk))) ranks) (\<lambda>partials.
           Inr (tsh, lshape,
                \<lparr>partial = partials,
                 local_result = lrs,
                 problem_idx = map (\<lambda>i. map (\<lambda>x. x - int (counts ! i)) (pm ! i)) ranks,
                 partition_matrix = pm,
                 events = [Gatherv, Bcast, Allreduce, Alltoall] @
                          map (\<lambda>(s, d, t, v). Send s d) (concat sends)\<rparr>))))))))))"

text \<open>
  The rebalance loop and \<open>partial.sort(dim=0, descending)\<close>, \<open>partial.transpose(0, axis)\<close>
  on every process.
\<close>

definition sort_split :: "int \<Rightarrow> nat list \<Rightarrow> nat \<Rightarrow> bool \<Rightarrow> tensor list
    \<Rightarrow> error + tensor list \<times> event list" where
  "sort_split junk gsh axis descending locals =
     bind_e (sort_exchange junk gsh axis descending locals) (\<lambda>(tsh, lshape, st).
     bind_e (rebalance junk descending axis tsh lshape st) (\<lambda>st'.
     Inr (map (\<lambda>p. transpose_t (of_rows tsh (sort_dim0 descending (prod_list tsh) p)) 0 axis)
            (partial st'),
          events st')))"

text \<open>
  \<open>sort(a, axis, descending)\<close>, returning the array it builds (with \<open>out\<close> given, the same
  local tensors are stored into \<open>out\<close>) and what went through the communicator.
\<close>

definition sort_ht :: "int \<Rightarrow> dndarray \<Rightarrow> nat option \<Rightarrow> bool \<Rightarrow> error + dndarray \<times> event list" where
  "sort_ht junk a axis_arg descending =
     (let axis = (case axis_arg of None \<Rightarrow> length (gshape a) - 1 | Some ax \<Rightarrow> ax)
      in bind_e (sanitize_axis (gshape a) axis) (\<lambda>_.
           if split a = None \<or> Some axis \<noteq> split a then
             bind_e (map_e (\<lambda>t. torch_sort t axis descending) (larrays a))
               (\<lambda>ps. Inr (a\<lparr>larrays := ps\<rparr>, []))
           else
             bind_e (sort_split junk (gshape a) axis descending (larrays a))
               (\<lambda>(ps, evs). Inr (a\<lparr>larrays := ps\<rparr>, evs))))"

section \<open>The specification's wording, for comparison\<close>

text \<open>
  CLASSIFY as the specification words it: the first pivot boundary the element does not
  exceed (ascending) or does exceed (descending).
\<close>

definition classify_as_specified :: "bool \<Rightarrow> int list list \<Rightarrow> nat \<Rightarrow> int \<Rightarrow> error + nat" where
  "classify_as_specified descending global_pivots idx val =
     first_e (\<lambda>i. if i = length global_pivots then Inr True
                  else bind_e (pivot_at global_pivots i idx)
                         (\<lambda>p. Inr (if descending then val > p else val \<le> p)))
       [0..<length global_pivots + 1]"

section \<open>What the claims speak of\<close>

text \<open>The multiset of the values of a partitioned array, over all processes.\<close>

definition values_of :: "dndarray \<Rightarrow> int multiset" where
  "values_of a = mset (concat (map elems (larrays a)))"

text \<open>
  The global array along \<open>axis\<close>: the local slices one after the other by rank, read as one
  sequence per position off the axis.
\<close>

definition global_fibres :: "dndarray \<Rightarrow> nat \<Rightarrow> int list list" where
  "global_fibres a axis =
     (let rows = concat (map (\<lambda>t. rows_of (transpose_t t axis 0)) (larrays a))
      in map (column rows) [0..<prod_list (tl (swap axis 0 (gshape a)))])"

text \<open>Every pair of adjacent positions satisfies the comparator of \<open>descending\<close>.\<close>

definition ordered :: "bool \<Rightarrow> int list \<Rightarrow> bool" where
  "ordered descending xs =
     list_all (\<lambda>i. if descending then xs ! i \<ge> xs ! Suc i else xs ! i \<le> xs ! Suc i)
       [0..<length xs - 1]"

text \<open>Inputs of the runs below.\<close>

definition lost_input :: dndarray where
  "lost_input = \<lparr>gshape = [6, 1], split = Some 0,
                  larrays = [Tensor [3, 1] [1, 2, 4], Tensor [3, 1] [3, 5, 6]]\<rparr>"

definition unwritten_input :: dndarray where
  "unwritten_input = \<lparr>gshape = [12, 1], split = Some 0,
                       larrays = [Tensor [6, 1] [1, 2, 3, 4, 5, 6],
                                  Tensor [6, 1] [7, 8, 9, 10, 11, 12]]\<rparr>"

definition fast_input :: dndarray where
  "fast_input = \<lparr>gshape = [2, 2], split = Some 1,
                  larrays = [Tensor [2, 1] [2, 1], Tensor [2, 1] [4, 3]]\<rparr>"

section \<open>Errors and loops\<close>

lemma bind_e_Inr_iff: "bind_e m f = Inr y \<longleftrightarrow> (\<exists>x. m = Inr x \<and> f x = Inr y)"
  by (cases m) (auto simp: bind_e_def)

lemma map_e_Inr:
  "map_e f xs = Inr ys \<Longrightarrow> length ys = length xs \<and> (\<forall>i<length xs. f (xs ! i) = Inr (ys ! i))"
proof (induction xs arbitrary: ys)
  case Nil
  then show ?case by simp
next
  case (Cons x xs)
  from Cons.prems obtain y ys' where y: "f x = Inr y" "map_e f xs = Inr ys'" "ys = y # ys'"
    by (auto simp: bind_e_Inr_iff)
  from Cons.IH [OF y(2)] y show ?case by (auto simp: nth_Cons split: nat.splits)
qed

lemma map_e_total:
  "(\<And>x. x \<in> set xs \<Longrightarrow> \<exists>y. f x = Inr y) \<Longrightarrow> \<exists>ys. map_e f xs = Inr ys"
proof (induction xs)
  case Nil
  then show ?case by simp
next
  case (Cons x xs)
  then obtain y ys where "f x = Inr y" "map_e f xs = Inr ys" by (meson list.set_intros)
  then show ?case by (simp add: bind_e_def)
qed

section \<open>Properties of CLASSIFY\<close>

text \<open>The scan of \<open>classify\<close> from boundary \<open>k\<close> on.\<close>

lemma first_e_scan:
  assumes "\<forall>i<n. idx < length (gp ! i)" and "k \<le> n" and "n = length gp"
  shows "\<exists>cur. first_e (\<lambda>i. if i = n then Inr True
                           else bind_e (pivot_at gp i idx) (\<lambda>p. Inr (op_func d val p)))
                  [k..<n + 1] = Inr cur
           \<and> k \<le> cur \<and> cur \<le> n
           \<and> (\<forall>i. k \<le> i \<and> i < cur \<longrightarrow> \<not> op_func d val (gp ! i ! idx))
           \<and> (cur < n \<longrightarrow> op_func d val (gp ! cur ! idx))"
  using assms(2)
proof (induction "n - k" arbitrary: k)
  case 0
  then have "k = n" by simp
  then show ?case by (auto simp: bind_e_def)
next
  case (Suc m)
  then have kn: "k < n" by simp
  have up: "[k..<n + 1] = k # [Suc k..<n + 1]" using kn by (simp add: upt_conv_Cons)
  have pa: "pivot_at gp k idx = Inr (gp ! k ! idx)"
    using kn assms(1,3) by (simp add: pivot_at_def)
  show ?case
  proof (cases "op_func d val (gp ! k ! idx)")
    case True
    then show ?thesis using kn pa up by (auto simp: bind_e_def)
  next
    case False
    from Suc have "m = n - Suc k" "Suc k \<le> n" by auto
    from Suc.hyps(1) [OF this] obtain cur where c:
      "first_e (\<lambda>i. if i = n then Inr True
                    else bind_e (pivot_at gp i idx) (\<lambda>p. Inr (op_func d val p)))
         [Suc k..<n + 1] = Inr cur"
      "Suc k \<le> cur" "cur \<le> n"
      "\<forall>i. Suc k \<le> i \<and> i < cur \<longrightarrow> \<not> op_func d val (gp ! i ! idx)"
      "cur < n \<longrightarrow> op_func d val (gp ! cur ! idx)"
      by blast
    have "\<forall>i. k \<le> i \<and> i < cur \<longrightarrow> \<not> op_func d val (gp ! i ! idx)"
      using c(4) False by (metis Suc_leI le_neq_implies_less)
    then show ?thesis using c(1,2,3,5) kn pa up False by (auto simp: bind_e_def)
  qed
qed

lemma classify_rule:
  assumes "\<forall>i<length gp. idx < length (gp ! i)"
  shows "\<exists>cur. classify d gp idx val = Inr cur \<and> cur \<le> length gp
           \<and> (\<forall>i<cur. \<not> op_func d val (gp ! i ! idx))
           \<and> (cur < length gp \<longrightarrow> op_func d val (gp ! cur ! idx))"
  using first_e_scan [OF assms, of 0 d val] by (auto simp: classify_def)


text \<open>
  The pivots that \<open>sort\<close> hands to CLASSIFY: rows of the sorted pivot buffer, taken at
  increasing positions.  Every position of a row is therefore in sort order down the
  pivot matrix, and every pivot row has the width of the data rows.
\<close>

lemma sort_list_sorted:
  "sorted_wrt (\<lambda>p q. if d then p \<ge> q else p \<le> q) (sort_list d xs)"
proof (cases d)
  case True
  have "sorted_wrt (\<lambda>x y. x \<le> y) (sort xs)" by simp
  then show ?thesis using True by (simp add: sort_list_def sorted_wrt_rev)
next
  case False
  have "sorted_wrt (\<lambda>x y. x \<le> y) (sort xs)" by simp
  then show ?thesis using False by (simp add: sort_list_def)
qed

lemma select_rows_Inr:
  assumes "select_rows M ks = Inr rs"
  shows "length rs = length ks \<and> (\<forall>a<length ks. ks ! a < length M \<and> rs ! a = M ! (ks ! a))"
proof -
  from map_e_Inr [OF assms [unfolded select_rows_def]]
  have l: "length rs = length ks"
    and n: "\<forall>a<length ks. (if ks ! a < length M then Inr (M ! (ks ! a)) else Inl IndexError) = Inr (rs ! a)"
    by auto
  have "\<forall>a<length ks. ks ! a < length M \<and> rs ! a = M ! (ks ! a)"
  proof (intro allI impI)
    fix a assume "a < length ks"
    with n have "(if ks ! a < length M then Inr (M ! (ks ! a)) else Inl IndexError) = (Inr (rs ! a) :: error + int list)"
      by blast
    then show "ks ! a < length M \<and> rs ! a = M ! (ks ! a)" by (auto split: if_splits)
  qed
  with l show ?thesis by blast
qed

lemma global_pivots_sorted:
  assumes "global_pivots_of d nproc P buf = Inr gp" and "j < P"
  shows "sorted_wrt (\<lambda>p q. if d then p \<ge> q else p \<le> q) (column gp j)"
    and "\<forall>p \<in> set gp. length p = P"
proof -
  define s where "s = sort_list d (column buf j)"
  define ks where "ks = map (\<lambda>x. x * length buf div nproc) [1..<nproc]"
  have len: "length (sort_dim0 d P buf) = length buf" by (simp add: sort_dim0_def)
  have sel: "select_rows (sort_dim0 d P buf) ks = Inr gp"
    using assms(1) by (simp add: global_pivots_of_def Let_def len ks_def)
  from select_rows_Inr [OF sel] len
  have l: "length gp = length ks"
    and n: "\<forall>a<length ks. ks ! a < length buf \<and> gp ! a = sort_dim0 d P buf ! (ks ! a)"
    by auto
  have ls: "length s = length buf" by (simp add: s_def sort_list_def column_def)
  have cell: "column gp j ! a = s ! (ks ! a)" if "a < length ks" for a
    using that n l assms(2) by (simp add: column_def sort_dim0_def s_def)
  have mono: "ks ! a \<le> ks ! b" if "a < b" "b < length ks" for a b
    using that by (simp add: ks_def div_le_mono)
  have srt: "sorted_wrt (\<lambda>p q. if d then p \<ge> q else p \<le> q) s"
    unfolding s_def by (rule sort_list_sorted)
  have "(if d then column gp j ! a \<ge> column gp j ! b else column gp j ! a \<le> column gp j ! b)"
    if ab: "a < b" "b < length (column gp j)" for a b
  proof -
    have b: "b < length ks" and a: "a < length ks" using ab l by (simp_all add: column_def)
    have kb: "ks ! b < length s" using n b ls by simp
    show ?thesis
    proof (cases "ks ! a = ks ! b")
      case True
      then show ?thesis using cell [OF a] cell [OF b] by simp
    next
      case False
      then have "ks ! a < ks ! b" using mono [OF ab(1) b] by simp
      from sorted_wrt_nth_less [OF srt this kb] show ?thesis
        using cell [OF a] cell [OF b] by simp
    qed
  qed
  then show "sorted_wrt (\<lambda>p q. if d then p \<ge> q else p \<le> q) (column gp j)"
    by (simp add: sorted_wrt_iff_nth_less)
  show "\<forall>p \<in> set gp. length p = P"
  proof
    fix p assume "p \<in> set gp"
    then obtain a where "a < length gp" "p = gp ! a" by (auto simp: in_set_conv_nth)
    then show "length p = P" using n l by (simp add: sort_dim0_def)
  qed
qed

text \<open>One row of the classification loop returns when the pivot rows cover it.\<close>

lemma classify_cells:
  assumes "\<forall>p \<in> set gp. length x \<le> length p"
  shows "\<exists>row. map_e (\<lambda>(idx, val). classify d gp idx val) (enumerate 0 x) = Inr row"
proof (rule map_e_total)
  fix c assume cin: "c \<in> set (enumerate 0 x)"
  obtain idx val where c1: "c = (idx, val)" by (cases c)
  with cin have c2: "idx < length x" by (simp add: in_set_enumerate_eq)
  note c = c1 c2
  have "\<forall>i<length gp. idx < length (gp ! i)"
    using assms c(2) by (metis nth_mem less_le_trans)
  from classify_rule [OF this, of d val] c(1)
  show "\<exists>y. (case c of (idx, val) \<Rightarrow> classify d gp idx val) = Inr y" by auto
qed

text \<open>
  Claim C6, as the code has it.  The classification loop of \<open>sort\<close> runs over every cell
  of the local sorted rows.  When every pivot row covers the positions of the local rows
  (as in \<open>sort\<close>, where both have the width of the data), the loop returns a destination
  for every cell, and that destination is the first pivot boundary that the element is
  strictly below (ascending) or strictly above (descending), the last rank when there is
  no such boundary.  Where the pivots of a position are in sort order (they are for the
  pivots that \<open>sort\<close> selects, lemma \<open>global_pivots_sorted\<close>), an element equal to a pivot
  boundary goes to a bucket after that boundary, the higher-index one.
\<close>

theorem classify_first_strict:
  assumes "\<forall>p \<in> set global_pivots. \<forall>x \<in> set local_sorted. length x \<le> length p"
  shows "\<exists>im. index_matrix_of descending global_pivots local_sorted = Inr im
           \<and> length im = length local_sorted
           \<and> (\<forall>i<length local_sorted.
                length (im ! i) = length (local_sorted ! i)
              \<and> (\<forall>j<length (local_sorted ! i).
                    im ! i ! j \<le> length global_pivots
                  \<and> (\<forall>k<im ! i ! j.
                        \<not> op_func descending (local_sorted ! i ! j) (global_pivots ! k ! j))
                  \<and> (im ! i ! j < length global_pivots \<longrightarrow>
                        op_func descending (local_sorted ! i ! j) (global_pivots ! (im ! i ! j) ! j))
                  \<and> (sorted_wrt (\<lambda>p q. if descending then p \<ge> q else p \<le> q)
                         (column global_pivots j) \<longrightarrow>
                       (\<forall>k<length global_pivots.
                          local_sorted ! i ! j = global_pivots ! k ! j \<longrightarrow> k < im ! i ! j))))"
proof -
  let ?f = "\<lambda>x. map_e (\<lambda>(idx, val). classify descending global_pivots idx val) (enumerate 0 x)"
  have "\<exists>im. map_e ?f local_sorted = Inr im"
  proof (rule map_e_total)
    fix x assume "x \<in> set local_sorted"
    with assms have "\<forall>p \<in> set global_pivots. length x \<le> length p" by blast
    from classify_cells [OF this] show "\<exists>y. ?f x = Inr y" .
  qed
  then obtain im where im: "map_e ?f local_sorted = Inr im" by blast
  from map_e_Inr [OF im]
  have l: "length im = length local_sorted"
    and rows: "\<forall>i<length local_sorted. ?f (local_sorted ! i) = Inr (im ! i)" by auto
  have "length (im ! i) = length (local_sorted ! i)
      \<and> (\<forall>j<length (local_sorted ! i).
            im ! i ! j \<le> length global_pivots
          \<and> (\<forall>k<im ! i ! j.
                \<not> op_func descending (local_sorted ! i ! j) (global_pivots ! k ! j))
          \<and> (im ! i ! j < length global_pivots \<longrightarrow>
                op_func descending (local_sorted ! i ! j) (global_pivots ! (im ! i ! j) ! j))
          \<and> (sorted_wrt (\<lambda>p q. if descending then p \<ge> q else p \<le> q)
                 (column global_pivots j) \<longrightarrow>
               (\<forall>k<length global_pivots.
                  local_sorted ! i ! j = global_pivots ! k ! j \<longrightarrow> k < im ! i ! j)))"
    if i: "i < length local_sorted" for i
  proof -
    let ?x = "local_sorted ! i"
    from rows i have r: "?f ?x = Inr (im ! i)" by blast
    from map_e_Inr [OF r]
    have lr: "length (im ! i) = length ?x"
      and cells: "\<forall>j<length ?x. classify descending global_pivots j (?x ! j) = Inr (im ! i ! j)"
      by (auto simp: nth_enumerate_eq)
    have cover: "\<forall>k<length global_pivots. j < length (global_pivots ! k)" if "j < length ?x" for j
      using assms i that by (metis nth_mem less_le_trans)
    have "im ! i ! j \<le> length global_pivots
          \<and> (\<forall>k<im ! i ! j. \<not> op_func descending (?x ! j) (global_pivots ! k ! j))
          \<and> (im ! i ! j < length global_pivots \<longrightarrow>
                op_func descending (?x ! j) (global_pivots ! (im ! i ! j) ! j))
          \<and> (sorted_wrt (\<lambda>p q. if descending then p \<ge> q else p \<le> q)
                 (column global_pivots j) \<longrightarrow>
               (\<forall>k<length global_pivots. ?x ! j = global_pivots ! k ! j \<longrightarrow> k < im ! i ! j))"
      if j: "j < length ?x" for j
    proof -
      from classify_rule [OF cover [OF j], of descending "?x ! j"] cells j
      have c: "im ! i ! j \<le> length global_pivots"
        "\<forall>k<im ! i ! j. \<not> op_func descending (?x ! j) (global_pivots ! k ! j)"
        "im ! i ! j < length global_pivots \<longrightarrow>
           op_func descending (?x ! j) (global_pivots ! (im ! i ! j) ! j)"
        by auto
      have "k < im ! i ! j"
        if srt: "sorted_wrt (\<lambda>p q. if descending then p \<ge> q else p \<le> q) (column global_pivots j)"
          and k: "k < length global_pivots" and eq: "?x ! j = global_pivots ! k ! j" for k
      proof (rule ccontr)
        assume "\<not> k < im ! i ! j"
        then have ck: "im ! i ! j \<le> k" by simp
        with k c(3) have o: "op_func descending (?x ! j) (global_pivots ! (im ! i ! j) ! j)" by simp
        show False
        proof (cases "im ! i ! j = k")
          case True
          with o eq show False by (simp add: op_func_def split: if_splits)
        next
          case False
          with ck have lt: "im ! i ! j < k" by simp
          have "k < length (column global_pivots j)" using k by (simp add: column_def)
          from sorted_wrt_nth_less [OF srt lt this] k lt o eq
          show False by (simp add: column_def op_func_def split: if_splits)
        qed
      qed
      with c show ?thesis by blast
    qed
    with lr show ?thesis by blast
  qed
  with im l show ?thesis unfolding index_matrix_of_def by blast
qed

text \<open>The loop at work: pivots 3 and 5; the element 5 goes to the last bucket, 4 to bucket 1.\<close>

theorem classify_first_strict_witness:
  "index_matrix_of False [[3], [5]] [[5], [4]] = Inr [[2], [1]]"
proof -
  have h: "\<forall>p \<in> set [[3], [5 :: int]]. \<forall>x \<in> set [[5], [4 :: int]]. length x \<le> length p" by simp
  from classify_first_strict [OF h, of False] obtain im where
    "index_matrix_of False [[3], [5]] [[5], [4]] = Inr im" by blast
  moreover have "index_matrix_of False [[3], [5]] [[5], [4]] = Inr [[2], [1]]"
    by (simp add: index_matrix_of_def classify_def pivot_at_def bind_e_def op_func_def enumerate_eq_zip upt_rec)
  ultimately show ?thesis by blast
qed

text \<open>
  Claim C6 as stated fails on a tie.  Ascending, with the single boundary 5, the element 5
  does not exceed the boundary, so the wording sends it to bucket 0; the code sends it to
  bucket 1.  Descending the tie goes to bucket 1 as well, not to the lower-index bucket.
\<close>

theorem classify_ties_counterexample:
  "classify_as_specified False [[5]] 0 5 = Inr 0 \<and> classify False [[5]] 0 5 = Inr 1
   \<and> classify True [[5]] 0 5 = Inr 1"
  by (simp add: classify_def classify_as_specified_def pivot_at_def bind_e_def op_func_def)

section \<open>Properties of the tags\<close>

text \<open>
  Claim C7 fails on the code.  The index tuples (1, 11) and (11, 1) get the same tag 111,
  and so do (0, 10) and (1, 0) with tag 10; the empty tuple of a one-dimensional array
  has no tag at all, \<open>int('')\<close> raises.
\<close>

theorem tag_collision:
  "tag_of [1, 11] = Inr 111 \<and> tag_of [11, 1] = Inr 111 \<and> tag_of [0, 10] = Inr 10 \<and> tag_of [1, 0] = Inr 10 \<and> tag_of [] = Inl ValueError"
  by (simp add: tag_of_def int_of_str_def str_nat.simps digit_char_def digit_val_def)

section \<open>Properties of the distributed sort\<close>

text \<open>
  A run of \<open>sort\<close> along the split axis, ascending, on two processes holding the rows
  1, 2, 4 and 3, 5, 6 of a 6 x 1 array.  Whatever \<open>torch.empty\<close> leaves in memory, the
  result is 1, 2, 4 and 4, 5, 6.
\<close>

lemma lost_run:
  "map_sum id (\<lambda>r. larrays (fst r)) (sort_ht junk lost_input (Some 0) False)
     = Inr [Tensor [3, 1] [1, 2, 4], Tensor [3, 1] [4, 5, 6]]"
  by code_simp

text \<open>
  Claim C1 fails on the code: in that run the value 3 is lost and the value 4 is there
  twice.  Process 0 receives four values for three places; the branch \<open>val > 0\<close> of the
  rebalance loop sends its largest value, 4, to process 1 but keeps it, and the value
  that did not fit in \<open>partial\<close>, 3, is never looked at again.
\<close>

theorem sort_loses_an_element:
  "\<forall>junk. \<exists>res evs. sort_ht junk lost_input (Some 0) False = Inr (res, evs)
      \<and> larrays res = [Tensor [3, 1] [1, 2, 4], Tensor [3, 1] [4, 5, 6]]
      \<and> values_of lost_input = mset [1, 2, 3, 4, 5, 6]
      \<and> values_of res = mset [1, 2, 4, 4, 5, 6]
      \<and> values_of res \<noteq> values_of lost_input"
proof
  fix junk
  obtain res evs where r: "sort_ht junk lost_input (Some 0) False = Inr (res, evs)"
    using lost_run [of junk] by (cases "sort_ht junk lost_input (Some 0) False") auto
  with lost_run [of junk]
  have l: "larrays res = [Tensor [3, 1] [1, 2, 4], Tensor [3, 1] [4, 5, 6]]" by simp
  have a: "values_of lost_input = mset [1, 2, 3, 4, 5, 6]"
    by (simp add: values_of_def lost_input_def)
  have b: "values_of res = mset [1, 2, 4, 4, 5, 6]" using l by (simp add: values_of_def)
  have "count (values_of res) 3 \<noteq> count (values_of lost_input) 3"
    unfolding a b by simp
  then have "values_of res \<noteq> values_of lost_input" by metis
  with r l a b show "\<exists>res evs. sort_ht junk lost_input (Some 0) False = Inr (res, evs)
      \<and> larrays res = [Tensor [3, 1] [1, 2, 4], Tensor [3, 1] [4, 5, 6]]
      \<and> values_of lost_input = mset [1, 2, 3, 4, 5, 6]
      \<and> values_of res = mset [1, 2, 4, 4, 5, 6]
      \<and> values_of res \<noteq> values_of lost_input" by blast
qed

text \<open>
  Claim C2 fails on the code.  Two processes hold 1 to 6 and 7 to 12 of a 12 x 1 array,
  already in order.  The pivot is 9: process 0 is assigned 1 to 8, process 1 is assigned
  9 to 12, four values for six places.  The rebalance loop sends the 8 of process 0
  twice, into the same cell of process 1; the value 7 is never sent and the last cell of
  the result is never written.  With 0 left there by \<open>torch.empty\<close>, the global sequence
  has 6 before 0.
\<close>

theorem sort_leaves_unordered:
  "map_sum id (\<lambda>r. global_fibres (fst r) 0) (sort_ht 0 unwritten_input (Some 0) False)
     = Inr [[1, 2, 3, 4, 5, 6, 0, 8, 9, 10, 11, 12]]
   \<and> \<not> ordered False [1, 2, 3, 4, 5, 6, 0, 8, 9, 10, 11, 12]"
  by code_simp

section \<open>The local shapes through the distributed sort\<close>
























section \<open>The fast path of sort\<close>

text \<open>\<open>torch.sort\<close> along dimension 0 sorts every column on its own.\<close>

lemma column_sort_dim0:
  assumes "j < P"
  shows "column (sort_dim0 d P M) j = sort_list d (column M j)"
proof (rule nth_equalityI)
  show "length (column (sort_dim0 d P M) j) = length (sort_list d (column M j))"
    by (simp add: column_def sort_dim0_def sort_list_def)
  fix i assume "i < length (column (sort_dim0 d P M) j)"
  then have "i < length M" by (simp add: column_def sort_dim0_def)
  then show "column (sort_dim0 d P M) j ! i = sort_list d (column M j) ! i"
    using assms by (simp add: column_def sort_dim0_def)
qed

lemma torch_sort_total:
  assumes "axis < length (shape t)"
  shows "\<exists>tr. transpose_e t axis 0 = Inr tr
           \<and> torch_sort t axis d
               = Inr (transpose_t (of_rows (tl (shape tr))
                        (sort_dim0 d (prod_list (tl (shape tr))) (rows_of tr))) 0 axis)"
  using assms by (auto simp: torch_sort_def transpose_e_def bind_e_def Let_def)

text \<open>
  Claim C8.  When the array is not split, or split along another axis than the one to
  sort along, \<open>sort\<close> returns, nothing goes through the communicator, and the local
  tensor of every process is \<open>torch.sort\<close> of its own slice along the axis: seen with the
  axis in front, every sequence along the axis is the sorted sequence of the input.
\<close>

theorem sort_fast_path:
  assumes "axis = (case axis_arg of None \<Rightarrow> length (gshape a) - 1 | Some ax \<Rightarrow> ax)"
    and "axis < length (gshape a)"
    and "split a = None \<or> split a \<noteq> Some axis"
    and "\<forall>t \<in> set (larrays a). axis < length (shape t)"
  shows "\<exists>ps. sort_ht junk a axis_arg descending = Inr (a\<lparr>larrays := ps\<rparr>, [])
           \<and> length ps = length (larrays a)
           \<and> (\<forall>r<length (larrays a).
                 torch_sort (larrays a ! r) axis descending = Inr (ps ! r)
               \<and> (\<exists>tr srt. transpose_e (larrays a ! r) axis 0 = Inr tr
                      \<and> ps ! r = transpose_t (of_rows (tl (shape tr)) srt) 0 axis
                      \<and> length srt = length (rows_of tr)
                      \<and> (\<forall>j<prod_list (tl (shape tr)).
                            column srt j = sort_list descending (column (rows_of tr) j))))"
proof -
  have "\<exists>ps. map_e (\<lambda>t. torch_sort t axis descending) (larrays a) = Inr ps"
  proof (rule map_e_total)
    fix t assume "t \<in> set (larrays a)"
    with assms(4) have "axis < length (shape t)" by blast
    from torch_sort_total [OF this] show "\<exists>y. torch_sort t axis descending = Inr y" by blast
  qed
  then obtain ps where ps: "map_e (\<lambda>t. torch_sort t axis descending) (larrays a) = Inr ps"
    by blast
  from map_e_Inr [OF ps] have l: "length ps = length (larrays a)"
    and each: "\<forall>r<length (larrays a). torch_sort (larrays a ! r) axis descending = Inr (ps ! r)"
    by auto
  have run: "sort_ht junk a axis_arg descending = Inr (a\<lparr>larrays := ps\<rparr>, [])"
    using assms(2,3) ps unfolding sort_ht_def Let_def assms(1) [symmetric]
    by (auto simp: sanitize_axis_def bind_e_def)
  have "torch_sort (larrays a ! r) axis descending = Inr (ps ! r)
      \<and> (\<exists>tr srt. transpose_e (larrays a ! r) axis 0 = Inr tr
             \<and> ps ! r = transpose_t (of_rows (tl (shape tr)) srt) 0 axis
             \<and> length srt = length (rows_of tr)
             \<and> (\<forall>j<prod_list (tl (shape tr)).
                   column srt j = sort_list descending (column (rows_of tr) j)))"
    if r: "r < length (larrays a)" for r
  proof -
    from each r have e: "torch_sort (larrays a ! r) axis descending = Inr (ps ! r)" by blast
    have "larrays a ! r \<in> set (larrays a)" using r by simp
    with assms(4) have "axis < length (shape (larrays a ! r))" by blast
    from torch_sort_total [OF this, of descending] e obtain tr where
      tr: "transpose_e (larrays a ! r) axis 0 = Inr tr"
      and p: "ps ! r = transpose_t (of_rows (tl (shape tr))
                         (sort_dim0 descending (prod_list (tl (shape tr))) (rows_of tr))) 0 axis"
      by auto
    have "length (sort_dim0 descending (prod_list (tl (shape tr))) (rows_of tr))
            = length (rows_of tr)" by (simp add: sort_dim0_def)
    moreover have "\<forall>j<prod_list (tl (shape tr)).
        column (sort_dim0 descending (prod_list (tl (shape tr))) (rows_of tr)) j
          = sort_list descending (column (rows_of tr) j)"
      by (simp add: column_sort_dim0)
    ultimately show ?thesis using e tr p by blast
  qed
  with run l show ?thesis by blast
qed

text \<open>
  A 2 x 2 array split along axis 1 and sorted along axis 0: each process sorts its own
  column.
\<close>

theorem sort_fast_path_witness:
  "sort_ht 0 fast_input (Some 0) False
     = Inr (fast_input\<lparr>larrays := [Tensor [2, 1] [1, 2], Tensor [2, 1] [3, 4]]\<rparr>, [])"
proof -
  have h: "(0 :: nat) = (case Some 0 of None \<Rightarrow> length (gshape fast_input) - 1 | Some ax \<Rightarrow> ax)"
    "0 < length (gshape fast_input)"
    "split fast_input = None \<or> split fast_input \<noteq> Some 0"
    "\<forall>t \<in> set (larrays fast_input). 0 < length (shape t)"
    by (simp_all add: fast_input_def)
  from sort_fast_path [OF h, of 0 False] obtain ps where
    run: "sort_ht 0 fast_input (Some 0) False = Inr (fast_input\<lparr>larrays := ps\<rparr>, [])"
    and l: "length ps = length (larrays fast_input)"
    and each: "\<forall>r<length (larrays fast_input).
                 torch_sort (larrays fast_input ! r) 0 False = Inr (ps ! r)"
    by blast
  have t0: "torch_sort (Tensor [2, 1] [2, 1]) 0 False = Inr (Tensor [2, 1] [1, 2])"
    and t1: "torch_sort (Tensor [2, 1] [4, 3]) 0 False = Inr (Tensor [2, 1] [3, 4])"
    by code_simp+
  have "length ps = 2" using l by (simp add: fast_input_def)
  moreover have "ps ! 0 = Tensor [2, 1] [1, 2]"
    using each [rule_format, of 0] t0 by (simp add: fast_input_def)
  moreover have "ps ! 1 = Tensor [2, 1] [3, 4]"
    using each [rule_format, of 1] t1 by (simp add: fast_input_def)
  ultimately have "ps = [Tensor [2, 1] [1, 2], Tensor [2, 1] [3, 4]]"
    by (cases ps; cases "tl ps") auto
  with run show ?thesis by simp
qed

end
